theory Spec2Isabelle
  imports Main
begin

section \<open>Header propagation and authorization gating in the headers sample\<close>

text \<open>
  A shallow embedding of \<^verbatim>\<open>go/samples/headers/main.go\<close>. The program stores the
  header collection of an HTTP request in a request-scoped context, reads it back in three
  flows, rejects a request whose \<^verbatim>\<open>Authorization\<close> header lacks the prefix
  \<^verbatim>\<open>Bearer \<close>, and serves the composite flow over one HTTP route.

  What the program does beyond computing values is made explicit. Every function that
  logs, prints or calls the generative model returns, next to its result, the list of
  events it produced, in order. The collaborators that are not part of the program (the
  generative model behind the two prompts, and the JSON decoder applied to the request
  body) are the fields of a record \<open>env\<close> that every function takes as its first argument.
  JSON documents are trees; their rendering as bytes is not modelled.
\<close>

subsection \<open>Strings and header collections\<close>

text \<open>
  \<^verbatim>\<open>strings.HasPrefix(s, prefix)\<close>:
  \<^verbatim>\<open>len(s) >= len(prefix) && s[:len(prefix)] == prefix\<close>.
\<close>

definition HasPrefix :: "string \<Rightarrow> string \<Rightarrow> bool" where
  "HasPrefix s pre = (length pre \<le> length s \<and> take (length pre) s = pre)"

text \<open>
  \<^verbatim>\<open>http.Header\<close> is \<^verbatim>\<open>map[string][]string\<close>. A Go map value is either
  \<^verbatim>\<open>nil\<close> or a map: \<open>None\<close> is the nil header, \<open>Some m\<close> a map \<open>m\<close>, which may be
  empty.
\<close>

type_synonym http_Header = "(string \<rightharpoonup> string list) option"

text \<open>
  \<^verbatim>\<open>textproto.CanonicalMIMEHeaderKey\<close>: a key made of header field bytes only gets an
  upper-case letter first and after each hyphen and lower-case letters elsewhere; any
  other key is returned as it is.
\<close>

definition isLower :: "char \<Rightarrow> bool" where
  "isLower c = (97 \<le> (of_char c :: nat) \<and> (of_char c :: nat) \<le> 122)"

definition isUpper :: "char \<Rightarrow> bool" where
  "isUpper c = (65 \<le> (of_char c :: nat) \<and> (of_char c :: nat) \<le> 90)"

definition isDigit :: "char \<Rightarrow> bool" where
  "isDigit c = (48 \<le> (of_char c :: nat) \<and> (of_char c :: nat) \<le> 57)"

definition toUpper :: "char \<Rightarrow> char" where
  "toUpper c = char_of ((of_char c :: nat) - 32)"

definition toLower :: "char \<Rightarrow> char" where
  "toLower c = char_of ((of_char c :: nat) + 32)"

definition validHeaderFieldByte :: "char \<Rightarrow> bool" where
  "validHeaderFieldByte c =
     (isLower c \<or> isUpper c \<or> isDigit c \<or>
      (of_char c :: nat) \<in> {33, 35, 36, 37, 38, 39, 42, 43, 45, 46, 94, 95, 96, 124, 126})"

fun canonicalize :: "bool \<Rightarrow> string \<Rightarrow> string" where
  "canonicalize upper [] = []"
| "canonicalize upper (c # cs) =
     (let c' = (if upper \<and> isLower c then toUpper c
                else if \<not> upper \<and> isUpper c then toLower c
                else c)
      in c' # canonicalize (c' = CHR ''-'') cs)"

definition CanonicalMIMEHeaderKey :: "string \<Rightarrow> string" where
  "CanonicalMIMEHeaderKey s = (if list_all validHeaderFieldByte s then canonicalize True s else s)"

text \<open>
  \<^verbatim>\<open>Header.Get(key)\<close>: the first value stored under the canonical form of the key, and
  the empty string when the header is nil, the key is missing or its value list is empty.
\<close>

definition Header_Get :: "http_Header \<Rightarrow> string \<Rightarrow> string" where
  "Header_Get h key =
     (case h of
        None \<Rightarrow> []
      | Some m \<Rightarrow>
          (case m (CanonicalMIMEHeaderKey key) of
             None \<Rightarrow> []
           | Some [] \<Rightarrow> []
           | Some (v # _) \<Rightarrow> v))"

subsection \<open>Contexts\<close>

text \<open>
  A \<^verbatim>\<open>context.Context\<close> is a chain of key/value bindings over the background context.
  The program's own key is the value \<^verbatim>\<open>HeaderContextKey{}\<close>; every other key of the
  chain is an \<open>OtherKey\<close>. A bound value is an interface value: a \<^verbatim>\<open>http.Header\<close>
  (nil or not), or a value of some other type.
\<close>

datatype ctxkey = HeaderContextKey | OtherKey string

datatype ctxval = HeaderVal http_Header | OtherVal string

datatype "context" = Background | WithValue "context" ctxkey ctxval

text \<open>\<^verbatim>\<open>ctx.Value(key)\<close>: the innermost binding of the key; \<open>None\<close> is the nil interface.\<close>

fun Value :: "context \<Rightarrow> ctxkey \<Rightarrow> ctxval option" where
  "Value Background key = None"
| "Value (WithValue parent k v) key = (if k = key then Some v else Value parent key)"

definition WithHeaders :: "context \<Rightarrow> http_Header \<Rightarrow> context" where
  "WithHeaders ctx headers = WithValue ctx HeaderContextKey (HeaderVal headers)"

text \<open>
  \<^verbatim>\<open>GetHeaders\<close>: the type assertion \<^verbatim>\<open>.(http.Header)\<close> succeeds exactly on a bound value
  of that type; in every other case the result is the nil header.
\<close>

definition GetHeaders :: "context \<Rightarrow> http_Header" where
  "GetHeaders ctx =
     (case Value ctx HeaderContextKey of
        Some (HeaderVal headers) \<Rightarrow> headers
      | _ \<Rightarrow> None)"

text \<open>
  A context has been passed through \<^verbatim>\<open>WithHeaders\<close> when some binding of its chain is
  one that \<^verbatim>\<open>WithHeaders\<close> makes.
\<close>

fun attached :: "context \<Rightarrow> bool" where
  "attached Background = False"
| "attached (WithValue parent k v) =
     ((k = HeaderContextKey \<and> (case v of HeaderVal _ \<Rightarrow> True | OtherVal _ \<Rightarrow> False)) \<or> attached parent)"

subsection \<open>Errors, JSON documents and records\<close>

text \<open>
  A Go \<^verbatim>\<open>error\<close> is a value with a message. \<open>Errorf\<close> is \<^verbatim>\<open>fmt.Errorf\<close> with a
  constant message, \<open>Errorf_w\<close> is \<^verbatim>\<open>fmt.Errorf("<prefix>%w", err)\<close>, and \<open>External\<close> is
  an error that a collaborator returned, known by its message only.
\<close>

datatype error = Errorf string | Errorf_w string error | External string

text \<open>The method \<^verbatim>\<open>err.Error()\<close>.\<close>

fun err_Error :: "error \<Rightarrow> string" where
  "err_Error (Errorf msg) = msg"
| "err_Error (Errorf_w pre err) = pre @ err_Error err"
| "err_Error (External msg) = msg"

datatype json = JNull | JBool bool | JString string | JArray "json list" | JObject "(string \<times> json) list"

record simpleGreetingInput =
  CustomerName :: string

record customerTimeAndHistoryInput =
  CustomerName :: string
  CurrentTime :: string
  PreviousOrder :: string

text \<open>
  \<^verbatim>\<open>Replies\<close> is a slice: \<open>None\<close> is the nil slice. \<^verbatim>\<open>Error\<close> is a string, whose zero
  value is the empty string.
\<close>

record testAllCoffeeFlowsOutput =
  Pass :: bool
  Replies :: "string list option"
  Error :: string

text \<open>
  \<^verbatim>\<open>json.Marshal\<close> on the pointers that the flows log. A nil pointer encodes as
  \<^verbatim>\<open>null\<close>, a struct as an object keyed by its field tags; the encoder has no failing
  case on a struct of strings.
\<close>

definition json_Marshal_simpleGreetingInput :: "simpleGreetingInput option \<Rightarrow> error + json" where
  "json_Marshal_simpleGreetingInput input =
     (case input of
        None \<Rightarrow> Inr JNull
      | Some i \<Rightarrow> Inr (JObject [(''customerName'', JString (simpleGreetingInput.CustomerName i))]))"

definition json_Marshal_customerTimeAndHistoryInput ::
  "customerTimeAndHistoryInput option \<Rightarrow> error + json" where
  "json_Marshal_customerTimeAndHistoryInput input =
     (case input of
        None \<Rightarrow> Inr JNull
      | Some i \<Rightarrow>
          Inr (JObject [(''customerName'', JString (customerTimeAndHistoryInput.CustomerName i)),
                        (''currentTime'', JString (CurrentTime i)),
                        (''previousOrder'', JString (PreviousOrder i))]))"

text \<open>
  The encoding of the composite result: \<^verbatim>\<open>omitempty\<close> leaves out a slice of length 0
  (nil or not) and an empty string.
\<close>

definition json_Encode_testAllCoffeeFlowsOutput :: "testAllCoffeeFlowsOutput \<Rightarrow> json" where
  "json_Encode_testAllCoffeeFlowsOutput out =
     JObject ([(''pass'', JBool (Pass out))]
              @ (case Replies out of
                   None \<Rightarrow> []
                 | Some [] \<Rightarrow> []
                 | Some rs \<Rightarrow> [(''replies'', JArray (map JString rs))])
              @ (if Error out = [] then [] else [(''error'', JString (Error out))]))"

subsection \<open>Events and collaborators\<close>

text \<open>
  The observable actions, in the order the program performs them:
  \<^item> \<open>LogInfo msg fields\<close>: a structured log line with its string fields;
  \<^item> \<open>LogInput j\<close>: the log line \<^verbatim>\<open>input--------<j>\<close>;
  \<^item> \<open>LogError err msg\<close>: an error log line;
  \<^item> \<open>PrintlnHeaders h\<close>: the line \<^verbatim>\<open>headers-------------\<close> followed by the JSON
    encoding of \<open>h\<close>;
  \<^item> \<open>Run name\<close>: the flow of that name is invoked;
  \<^item> \<open>ExecuteSimpleGreeting\<close> and \<open>ExecuteGreetingWithHistory\<close>: a prompt is executed,
    that is, the generative model is called, with this input (and, for the first, whether
    a streaming callback was supplied).
\<close>

datatype event =
    LogInfo string "(string \<times> string) list"
  | LogInput json
  | LogError string string
  | PrintlnHeaders http_Header
  | Run string
  | ExecuteSimpleGreeting "simpleGreetingInput option" bool
  | ExecuteGreetingWithHistory "customerTimeAndHistoryInput option"

text \<open>A streaming callback receives the text of a chunk and may return an error message.\<close>

type_synonym stream_cb = "string \<Rightarrow> string option"

text \<open>
  The collaborators. \<open>executeSimpleGreeting\<close> and \<open>executeGreetingWithHistory\<close> are
  \<^verbatim>\<open>Prompt.Execute\<close> followed by \<^verbatim>\<open>resp.Text()\<close>: \<open>Inl msg\<close> is an error with message
  \<open>msg\<close>, \<open>Inr text\<close> the text of the response. \<open>jsonDecode\<close> is
  \<^verbatim>\<open>json.NewDecoder(body).Decode(&input)\<close> for the empty struct \<^verbatim>\<open>input\<close>: the struct has
  no field to fill, so only the error matters (\<open>Some msg\<close>), or its absence.
\<close>

record env =
  executeSimpleGreeting :: "context \<Rightarrow> simpleGreetingInput option \<Rightarrow> stream_cb option \<Rightarrow> string + string"
  executeGreetingWithHistory :: "context \<Rightarrow> customerTimeAndHistoryInput option \<Rightarrow> string + string"
  jsonDecode :: "string \<Rightarrow> string option"

text \<open>
  \<^verbatim>\<open>Flow.Run\<close> of the framework, by its interface
  \<^verbatim>\<open>run(context, input) -> (output, error)\<close>: the function registered under the name is
  called with the same context and input, and its result is returned.
\<close>

definition Flow_Run ::
  "string \<Rightarrow> (context \<Rightarrow> 'i \<Rightarrow> 'r \<times> event list) \<Rightarrow> context \<Rightarrow> 'i \<Rightarrow> 'r \<times> event list" where
  "Flow_Run name fn ctx input = (let (r, evs) = fn ctx input in (r, Run name # evs))"

subsection \<open>The three flows\<close>

text \<open>
  The condition of the authorization check, which the three flows write out in the same
  words: \<^verbatim>\<open>headers != nil && !strings.HasPrefix(headers.Get("Authorization"), "Bearer ")\<close>.
\<close>

definition invalidAuthorization :: "http_Header \<Rightarrow> bool" where
  "invalidAuthorization headers =
     (headers \<noteq> None \<and> \<not> HasPrefix (Header_Get headers ''Authorization'') ''Bearer '')"

text \<open>The log line that each flow writes when the headers are not nil.\<close>

definition logHeaders :: "string \<Rightarrow> http_Header \<Rightarrow> event list" where
  "logHeaders msg headers =
     (if headers \<noteq> None
      then [LogInfo msg [(''authorization'', Header_Get headers ''Authorization''),
                         (''x-request-id'', Header_Get headers ''X-Request-ID'')]]
      else [])"

text \<open>
  The flow \<^verbatim>\<open>simpleGreeting\<close>. Its input pointer (\<open>None\<close> is the nil pointer) and its
  streaming callback (\<open>None\<close> is the nil callback) come as a pair. The callback handed to
  the prompt applies \<^verbatim>\<open>cb\<close> to the text of each chunk, and is nil when \<^verbatim>\<open>cb\<close> is.
\<close>

definition simpleGreetingFlow ::
  "env \<Rightarrow> context \<Rightarrow> simpleGreetingInput option \<times> stream_cb option \<Rightarrow> (error + string) \<times> event list" where
  "simpleGreetingFlow E ctx arg =
     (let (input, cb) = arg;
          headers = GetHeaders ctx;
          evs = logHeaders ''Received HTTP headers in simpleGreeting'' headers
      in if invalidAuthorization headers
         then (Inl (Errorf ''invalid authorization header''), evs)
         else
           (case json_Marshal_simpleGreetingInput input of
              Inl err \<Rightarrow> (Inl (Errorf_w ''json.Marshal: '' err), evs)
            | Inr inputJSON \<Rightarrow>
                (let evs' = evs @ [LogInput inputJSON, ExecuteSimpleGreeting input (cb \<noteq> None)]
                 in case executeSimpleGreeting E ctx input cb of
                      Inl err \<Rightarrow> (Inl (External err), evs')
                    | Inr text \<Rightarrow> (Inr text, evs'))))"

text \<open>The flow \<^verbatim>\<open>greetingWithHistory\<close>.\<close>

definition greetingWithHistoryFlow ::
  "env \<Rightarrow> context \<Rightarrow> customerTimeAndHistoryInput option \<Rightarrow> (error + string) \<times> event list" where
  "greetingWithHistoryFlow E ctx input =
     (let headers = GetHeaders ctx;
          evs = logHeaders ''Received HTTP headers in greetingWithHistory'' headers
      in if invalidAuthorization headers
         then (Inl (Errorf ''invalid authorization header''), evs)
         else
           (case json_Marshal_customerTimeAndHistoryInput input of
              Inl err \<Rightarrow> (Inl (Errorf_w ''json.Marshal: '' err), evs)
            | Inr inputJSON \<Rightarrow>
                (let evs' = evs @ [LogInput inputJSON, ExecuteGreetingWithHistory input]
                 in case executeGreetingWithHistory E ctx input of
                      Inl err \<Rightarrow> (Inl (External err), evs')
                    | Inr text \<Rightarrow> (Inr text, evs'))))"

text \<open>
  The composite flow \<^verbatim>\<open>testAllCoffeeFlows\<close>. Its input is the empty struct, and its error
  result is nil on every path. \<^verbatim>\<open>simpleGreetingFlow.Run\<close> takes no streaming callback.
\<close>

definition coffeeFlow ::
  "env \<Rightarrow> context \<Rightarrow> unit \<Rightarrow> (error + testAllCoffeeFlowsOutput) \<times> event list" where
  "coffeeFlow E ctx u =
     (let headers = GetHeaders ctx;
          evs = logHeaders ''Received HTTP headers in testAllCoffeeFlows'' headers
      in if invalidAuthorization headers
         then (Inr \<lparr>Pass = False, Replies = None, Error = ''invalid authorization header''\<rparr>, evs)
         else
           (let evs0 = evs @ [PrintlnHeaders headers];
                (r1, evs1) = Flow_Run ''simpleGreeting'' (simpleGreetingFlow E) ctx
                               (Some \<lparr>simpleGreetingInput.CustomerName = ''Sam''\<rparr>, None)
            in case r1 of
                 Inl err \<Rightarrow> (Inr \<lparr>Pass = False, Replies = None, Error = err_Error err\<rparr>, evs0 @ evs1)
               | Inr test1 \<Rightarrow>
                   (let (r2, evs2) = Flow_Run ''greetingWithHistory'' (greetingWithHistoryFlow E) ctx
                                       (Some \<lparr>CustomerName = ''Sam'', CurrentTime = ''09:45am'',
                                              PreviousOrder = ''Caramel Macchiato''\<rparr>)
                    in case r2 of
                         Inl err \<Rightarrow>
                           (Inr \<lparr>Pass = False, Replies = None, Error = err_Error err\<rparr>,
                            evs0 @ evs1 @ evs2)
                       | Inr test2 \<Rightarrow>
                           (Inr \<lparr>Pass = True, Replies = Some [test1, test2], Error = []\<rparr>,
                            evs0 @ evs1 @ evs2))))"

subsection \<open>The HTTP endpoint\<close>

text \<open>
  The fields of \<^verbatim>\<open>*http.Request\<close> that the handler reads. \<^verbatim>\<open>ContentLength\<close> is the
  declared length of the body, and \<open>-1\<close> when the length is unknown, as for a body sent
  with chunked transfer encoding.
\<close>

record request =
  Method :: string
  ContentLength :: int
  Body :: string
  Header :: http_Header
  Context :: "context"

text \<open>What the handler writes: a status, header fields and a body.\<close>

datatype payload = Text string | Json json

record response =
  Status :: nat
  RespHeader :: "(string \<times> string) list"
  Payload :: payload

text \<open>\<^verbatim>\<open>http.Error(w, msg, code)\<close>: a plain-text reply, the message followed by a newline.\<close>

definition http_Error :: "string \<Rightarrow> nat \<Rightarrow> response" where
  "http_Error msg code =
     \<lparr>Status = code,
      RespHeader = [(''Content-Type'', ''text/plain; charset=utf-8''),
                    (''X-Content-Type-Options'', ''nosniff'')],
      Payload = Text (msg @ [CHR 0x0A])\<rparr>"

text \<open>
  The handler of \<^verbatim>\<open>POST /testAllCoffeeFlows\<close>. The body is decoded only when the declared
  length is positive. The reply to a flow that returned a record is status 200 with the
  JSON encoding of the record, which has no failing case on this record type.
\<close>

definition handler :: "env \<Rightarrow> request \<Rightarrow> response \<times> event list" where
  "handler E r =
     (if Method r \<noteq> ''POST'' then (http_Error ''Method not allowed'' 405, [])
      else
        (case (if ContentLength r > 0 then jsonDecode E (Body r) else None) of
           Some err \<Rightarrow>
             (http_Error ''Invalid input'' 400, [LogError err ''Failed to decode request body''])
         | None \<Rightarrow>
             (let evs0 = [PrintlnHeaders (Header r)];
                  ctx = WithHeaders (Context r) (Header r);
                  (res, evs) = Flow_Run ''testAllCoffeeFlows'' (coffeeFlow E) ctx ()
              in case res of
                   Inl err \<Rightarrow>
                     (http_Error (''Flow error: '' @ err_Error err) 500,
                      evs0 @ evs @ [LogError (err_Error err) ''Flow execution failed''])
                 | Inr output \<Rightarrow>
                     (\<lparr>Status = 200,
                       RespHeader = [(''Content-Type'', ''application/json'')],
                       Payload = Json (json_Encode_testAllCoffeeFlowsOutput output)\<rparr>,
                      evs0 @ evs))))"

subsection \<open>Collaborators and requests of the closed examples\<close>

text \<open>
  A decoder for the examples: it accepts the body \<^verbatim>\<open>{}\<close> and rejects every other one.
  The examples apply it to \<^verbatim>\<open>{}\<close> and to \<^verbatim>\<open>{invalid\<close>, where Go's decoder does the same.
\<close>

definition strictDecode :: "string \<Rightarrow> string option" where
  "strictDecode body = (if body = ''{}'' then None else Some ''invalid character'')"

text \<open>A model that answers both prompts.\<close>

definition barista :: env where
  "barista =
     \<lparr>executeSimpleGreeting = (\<lambda>ctx input cb. Inr ''Hi Sam, try a latte.''),
      executeGreetingWithHistory = (\<lambda>ctx input. Inr ''Welcome back Sam, a mocha today?''),
      jsonDecode = strictDecode\<rparr>"

text \<open>A model whose second prompt fails.\<close>

definition historyDown :: env where
  "historyDown =
     \<lparr>executeSimpleGreeting = (\<lambda>ctx input cb. Inr ''Hi Sam, try a latte.''),
      executeGreetingWithHistory = (\<lambda>ctx input. Inl ''model unavailable''),
      jsonDecode = strictDecode\<rparr>"

text \<open>A model whose first prompt fails with an error whose message is the empty string.\<close>

definition muteFailure :: env where
  "muteFailure =
     \<lparr>executeSimpleGreeting = (\<lambda>ctx input cb. Inl []),
      executeGreetingWithHistory = (\<lambda>ctx input. Inr ''Welcome back Sam, a mocha today?''),
      jsonDecode = strictDecode\<rparr>"

definition bearerHeader :: http_Header where
  "bearerHeader = Some [''Authorization'' \<mapsto> [''Bearer abc'']]"

definition basicHeader :: http_Header where
  "basicHeader = Some [''Authorization'' \<mapsto> [''Basic xyz'']]"

text \<open>The inputs that the composite flow passes to the two leaf flows.\<close>

definition samInput :: simpleGreetingInput where
  "samInput = \<lparr>simpleGreetingInput.CustomerName = ''Sam''\<rparr>"

definition samHistoryInput :: customerTimeAndHistoryInput where
  "samHistoryInput =
     \<lparr>CustomerName = ''Sam'', CurrentTime = ''09:45am'', PreviousOrder = ''Caramel Macchiato''\<rparr>"

text \<open>
  An event respects the constant inputs when, if it is the execution of a prompt, the input
  is the one that the composite flow writes out (and no streaming callback is supplied).
\<close>

definition constantInputs :: "event \<Rightarrow> bool" where
  "constantInputs e =
     (case e of
        ExecuteSimpleGreeting input streaming \<Rightarrow> input = Some samInput \<and> \<not> streaming
      | ExecuteGreetingWithHistory input \<Rightarrow> input = Some samHistoryInput
      | _ \<Rightarrow> True)"

section \<open>Auxiliary facts\<close>

lemma CanonicalMIMEHeaderKey_Authorization:
  "CanonicalMIMEHeaderKey ''Authorization'' = ''Authorization''"
  by (simp add: CanonicalMIMEHeaderKey_def validHeaderFieldByte_def isLower_def isUpper_def
      isDigit_def Let_def)

lemma Header_Get_Authorization:
  "Header_Get (Some m) ''Authorization'' =
     (case m ''Authorization'' of None \<Rightarrow> [] | Some [] \<Rightarrow> [] | Some (v # _) \<Rightarrow> v)"
  by (simp only: Header_Get_def CanonicalMIMEHeaderKey_Authorization option.case)

lemma HasPrefix_iff: "HasPrefix s pre \<longleftrightarrow> (\<exists>t. s = pre @ t)"
  unfolding HasPrefix_def
  by (metis append_eq_conv_conj append_take_drop_id length_append le_add1)

lemma invalidAuthorization_Some:
  "invalidAuthorization (Some m) \<longleftrightarrow> \<not> (\<exists>token. Header_Get (Some m) ''Authorization'' = ''Bearer '' @ token)"
  by (simp only: invalidAuthorization_def HasPrefix_iff) simp

lemma invalidAuthorization_None: "\<not> invalidAuthorization None"
  by (simp add: invalidAuthorization_def)

lemma json_Marshal_simpleGreetingInput_ok: "\<exists>j. json_Marshal_simpleGreetingInput input = Inr j"
  by (cases input) (simp_all add: json_Marshal_simpleGreetingInput_def)

lemma json_Marshal_customerTimeAndHistoryInput_ok:
  "\<exists>j. json_Marshal_customerTimeAndHistoryInput input = Inr j"
  by (cases input) (simp_all add: json_Marshal_customerTimeAndHistoryInput_def)

lemma simpleGreetingFlow_rejected:
  "invalidAuthorization (GetHeaders ctx) \<Longrightarrow>
   simpleGreetingFlow E ctx arg =
     (Inl (Errorf ''invalid authorization header''),
      logHeaders ''Received HTTP headers in simpleGreeting'' (GetHeaders ctx))"
  by (cases arg) (simp add: simpleGreetingFlow_def)

lemma simpleGreetingFlow_admitted:
  assumes "\<not> invalidAuthorization (GetHeaders ctx)"
  shows "\<exists>j. simpleGreetingFlow E ctx (input, cb) =
     (map_sum External id (executeSimpleGreeting E ctx input cb),
      logHeaders ''Received HTTP headers in simpleGreeting'' (GetHeaders ctx)
      @ [LogInput j, ExecuteSimpleGreeting input (cb \<noteq> None)])"
proof -
  obtain j where j: "json_Marshal_simpleGreetingInput input = Inr j"
    using json_Marshal_simpleGreetingInput_ok by blast
  have "simpleGreetingFlow E ctx (input, cb) =
     (map_sum External id (executeSimpleGreeting E ctx input cb),
      logHeaders ''Received HTTP headers in simpleGreeting'' (GetHeaders ctx)
      @ [LogInput j, ExecuteSimpleGreeting input (cb \<noteq> None)])"
    using assms j by (cases "executeSimpleGreeting E ctx input cb") (simp_all add: simpleGreetingFlow_def)
  then show ?thesis ..
qed

lemma greetingWithHistoryFlow_rejected:
  "invalidAuthorization (GetHeaders ctx) \<Longrightarrow>
   greetingWithHistoryFlow E ctx input =
     (Inl (Errorf ''invalid authorization header''),
      logHeaders ''Received HTTP headers in greetingWithHistory'' (GetHeaders ctx))"
  by (simp add: greetingWithHistoryFlow_def)

lemma greetingWithHistoryFlow_admitted:
  assumes "\<not> invalidAuthorization (GetHeaders ctx)"
  shows "\<exists>j. greetingWithHistoryFlow E ctx input =
     (map_sum External id (executeGreetingWithHistory E ctx input),
      logHeaders ''Received HTTP headers in greetingWithHistory'' (GetHeaders ctx)
      @ [LogInput j, ExecuteGreetingWithHistory input])"
proof -
  obtain j where j: "json_Marshal_customerTimeAndHistoryInput input = Inr j"
    using json_Marshal_customerTimeAndHistoryInput_ok by blast
  have "greetingWithHistoryFlow E ctx input =
     (map_sum External id (executeGreetingWithHistory E ctx input),
      logHeaders ''Received HTTP headers in greetingWithHistory'' (GetHeaders ctx)
      @ [LogInput j, ExecuteGreetingWithHistory input])"
    using assms j by (cases "executeGreetingWithHistory E ctx input") (simp_all add: greetingWithHistoryFlow_def)
  then show ?thesis ..
qed

lemma coffeeFlow_rejected:
  "invalidAuthorization (GetHeaders ctx) \<Longrightarrow>
   coffeeFlow E ctx u =
     (Inr \<lparr>Pass = False, Replies = None, Error = ''invalid authorization header''\<rparr>,
      logHeaders ''Received HTTP headers in testAllCoffeeFlows'' (GetHeaders ctx))"
  by (simp add: coffeeFlow_def)

text \<open>The composite flow past its check, in terms of the two leaf flows.\<close>

lemma coffeeFlow_admitted:
  assumes "\<not> invalidAuthorization (GetHeaders ctx)"
  shows "coffeeFlow E ctx u =
     (case fst (simpleGreetingFlow E ctx (Some samInput, None)) of
        Inl err \<Rightarrow>
          (Inr \<lparr>Pass = False, Replies = None, Error = err_Error err\<rparr>,
           logHeaders ''Received HTTP headers in testAllCoffeeFlows'' (GetHeaders ctx)
           @ [PrintlnHeaders (GetHeaders ctx), Run ''simpleGreeting'']
           @ snd (simpleGreetingFlow E ctx (Some samInput, None)))
      | Inr test1 \<Rightarrow>
          (case fst (greetingWithHistoryFlow E ctx (Some samHistoryInput)) of
             Inl err \<Rightarrow>
               (Inr \<lparr>Pass = False, Replies = None, Error = err_Error err\<rparr>,
                logHeaders ''Received HTTP headers in testAllCoffeeFlows'' (GetHeaders ctx)
                @ [PrintlnHeaders (GetHeaders ctx), Run ''simpleGreeting'']
                @ snd (simpleGreetingFlow E ctx (Some samInput, None))
                @ [Run ''greetingWithHistory'']
                @ snd (greetingWithHistoryFlow E ctx (Some samHistoryInput)))
           | Inr test2 \<Rightarrow>
               (Inr \<lparr>Pass = True, Replies = Some [test1, test2], Error = []\<rparr>,
                logHeaders ''Received HTTP headers in testAllCoffeeFlows'' (GetHeaders ctx)
                @ [PrintlnHeaders (GetHeaders ctx), Run ''simpleGreeting'']
                @ snd (simpleGreetingFlow E ctx (Some samInput, None))
                @ [Run ''greetingWithHistory'']
                @ snd (greetingWithHistoryFlow E ctx (Some samHistoryInput)))))"
  using assms
  by (simp add: coffeeFlow_def Flow_Run_def samInput_def samHistoryInput_def Let_def
      split: prod.splits sum.splits)

section \<open>The header context carrier\<close>

text \<open>
  C4. Round trip: reading the headers back from the context that \<^verbatim>\<open>WithHeaders\<close> returns
  yields exactly the header collection that was stored, for every context and every
  header collection (the nil one included).
\<close>

theorem GetHeaders_WithHeaders: "GetHeaders (WithHeaders ctx H) = H"
  by (simp add: GetHeaders_def WithHeaders_def)

text \<open>
  C8. On a context that was never passed through \<^verbatim>\<open>WithHeaders\<close>, \<^verbatim>\<open>GetHeaders\<close>
  yields the nil header, which is not the empty header collection.
\<close>

theorem GetHeaders_not_attached:
  "\<not> attached ctx \<Longrightarrow> GetHeaders ctx = None \<and> GetHeaders ctx \<noteq> Some Map.empty"
proof (induction ctx)
  case Background
  show ?case by (simp add: GetHeaders_def)
next
  case (WithValue parent k v)
  then have parent: "GetHeaders parent = None" by simp
  show ?case
  proof (cases "k = HeaderContextKey")
    case True
    with WithValue.prems obtain s where "v = OtherVal s"
      by (cases v) auto
    with True show ?thesis by (simp add: GetHeaders_def)
  next
    case False
    with parent show ?thesis by (simp add: GetHeaders_def)
  qed
qed

theorem GetHeaders_not_attached_witness:
  "\<not> attached (WithValue Background (OtherKey ''trace'') (OtherVal ''t1''))
   \<and> GetHeaders (WithValue Background (OtherKey ''trace'') (OtherVal ''t1'')) = None
   \<and> GetHeaders (WithValue Background (OtherKey ''trace'') (OtherVal ''t1'')) \<noteq> Some Map.empty"
  using GetHeaders_not_attached [of "WithValue Background (OtherKey ''trace'') (OtherVal ''t1'')"]
  by simp

section \<open>The authorization check\<close>

text \<open>
  C1. When the context carries a header collection that is a map, the authorization check
  rejects exactly when the \<^verbatim>\<open>Authorization\<close> entry is not the string \<^verbatim>\<open>Bearer \<close>
  followed by some token; what the token is plays no role. Each leaf flow then returns the
  error \<^verbatim>\<open>invalid authorization header\<close> exactly in that case, and the composite flow
  returns its rejection record, having done nothing but write its log line, exactly in that
  case.
\<close>

theorem authorization_gate:
  assumes "GetHeaders ctx = Some m"
  shows "(invalidAuthorization (GetHeaders ctx)
            \<longleftrightarrow> \<not> (\<exists>token. Header_Get (Some m) ''Authorization'' = ''Bearer '' @ token))
       \<and> (fst (simpleGreetingFlow E ctx arg) = Inl (Errorf ''invalid authorization header'')
            \<longleftrightarrow> \<not> (\<exists>token. Header_Get (Some m) ''Authorization'' = ''Bearer '' @ token))
       \<and> (fst (greetingWithHistoryFlow E ctx input) = Inl (Errorf ''invalid authorization header'')
            \<longleftrightarrow> \<not> (\<exists>token. Header_Get (Some m) ''Authorization'' = ''Bearer '' @ token))
       \<and> (coffeeFlow E ctx u =
            (Inr \<lparr>Pass = False, Replies = None, Error = ''invalid authorization header''\<rparr>,
             logHeaders ''Received HTTP headers in testAllCoffeeFlows'' (Some m))
            \<longleftrightarrow> \<not> (\<exists>token. Header_Get (Some m) ''Authorization'' = ''Bearer '' @ token))"
proof -
  let ?bearer = "\<exists>token. Header_Get (Some m) ''Authorization'' = ''Bearer '' @ token"
  have gate: "invalidAuthorization (GetHeaders ctx) \<longleftrightarrow> \<not> ?bearer"
    using assms by (simp only: invalidAuthorization_Some)
  have simple: "fst (simpleGreetingFlow E ctx arg) = Inl (Errorf ''invalid authorization header'')
                  \<longleftrightarrow> invalidAuthorization (GetHeaders ctx)"
  proof (cases "invalidAuthorization (GetHeaders ctx)")
    case True
    then show ?thesis by (simp add: simpleGreetingFlow_rejected)
  next
    case False
    obtain input cb where arg: "arg = (input, cb)" by (cases arg)
    from simpleGreetingFlow_admitted [OF False, of E input cb]
    have "fst (simpleGreetingFlow E ctx arg) = map_sum External id (executeSimpleGreeting E ctx input cb)"
      by (auto simp: arg)
    with False show ?thesis
      by (cases "executeSimpleGreeting E ctx input cb") simp_all
  qed
  have history: "fst (greetingWithHistoryFlow E ctx input) = Inl (Errorf ''invalid authorization header'')
                  \<longleftrightarrow> invalidAuthorization (GetHeaders ctx)"
  proof (cases "invalidAuthorization (GetHeaders ctx)")
    case True
    then show ?thesis by (simp add: greetingWithHistoryFlow_rejected)
  next
    case False
    from greetingWithHistoryFlow_admitted [OF False, of E input]
    have "fst (greetingWithHistoryFlow E ctx input) = map_sum External id (executeGreetingWithHistory E ctx input)"
      by auto
    with False show ?thesis
      by (cases "executeGreetingWithHistory E ctx input") simp_all
  qed
  have composite: "coffeeFlow E ctx u =
            (Inr \<lparr>Pass = False, Replies = None, Error = ''invalid authorization header''\<rparr>,
             logHeaders ''Received HTTP headers in testAllCoffeeFlows'' (Some m))
            \<longleftrightarrow> invalidAuthorization (GetHeaders ctx)"
  proof (cases "invalidAuthorization (GetHeaders ctx)")
    case True
    then show ?thesis using assms by (simp add: coffeeFlow_rejected)
  next
    case False
    have "snd (coffeeFlow E ctx u) \<noteq> logHeaders ''Received HTTP headers in testAllCoffeeFlows'' (Some m)"
      using assms by (simp add: coffeeFlow_admitted [OF False] split: sum.splits)
    with False show ?thesis by auto
  qed
  from gate simple history composite show ?thesis by simp
qed

theorem authorization_gate_witness:
  "GetHeaders (WithHeaders Background basicHeader) = Some [''Authorization'' \<mapsto> [''Basic xyz'']]
   \<and> invalidAuthorization (GetHeaders (WithHeaders Background basicHeader))
   \<and> fst (simpleGreetingFlow barista (WithHeaders Background basicHeader) (Some samInput, None))
       = Inl (Errorf ''invalid authorization header'')
   \<and> fst (greetingWithHistoryFlow barista (WithHeaders Background basicHeader) (Some samHistoryInput))
       = Inl (Errorf ''invalid authorization header'')
   \<and> fst (coffeeFlow barista (WithHeaders Background basicHeader) ())
       = Inr \<lparr>Pass = False, Replies = None, Error = ''invalid authorization header''\<rparr>
   \<and> invalidAuthorization
        (GetHeaders (WithHeaders Background (Some [''Authorization'' \<mapsto> [''bearer abc'']])))
   \<and> \<not> invalidAuthorization (GetHeaders (WithHeaders Background bearerHeader))"
proof -
  have h: "GetHeaders (WithHeaders Background basicHeader) = Some [''Authorization'' \<mapsto> [''Basic xyz'']]"
    by (simp add: GetHeaders_def WithHeaders_def basicHeader_def)
  have n: "\<not> (\<exists>token. Header_Get (Some [''Authorization'' \<mapsto> [''Basic xyz'']]) ''Authorization'' = ''Bearer '' @ token)"
    by (simp add: Header_Get_Authorization)
  have basic: "invalidAuthorization (GetHeaders (WithHeaders Background basicHeader))
   \<and> fst (simpleGreetingFlow barista (WithHeaders Background basicHeader) (Some samInput, None))
       = Inl (Errorf ''invalid authorization header'')
   \<and> fst (greetingWithHistoryFlow barista (WithHeaders Background basicHeader) (Some samHistoryInput))
       = Inl (Errorf ''invalid authorization header'')
   \<and> fst (coffeeFlow barista (WithHeaders Background basicHeader) ())
       = Inr \<lparr>Pass = False, Replies = None, Error = ''invalid authorization header''\<rparr>"
    using authorization_gate [OF h, of barista "(Some samInput, None)" "Some samHistoryInput" "()"] n
    by simp
  have hl: "GetHeaders (WithHeaders Background (Some [''Authorization'' \<mapsto> [''bearer abc'']]))
              = Some [''Authorization'' \<mapsto> [''bearer abc'']]"
    by (simp add: GetHeaders_def WithHeaders_def)
  have nl: "\<not> (\<exists>token. Header_Get (Some [''Authorization'' \<mapsto> [''bearer abc'']]) ''Authorization'' = ''Bearer '' @ token)"
    by (simp add: Header_Get_Authorization)
  have lower: "invalidAuthorization
        (GetHeaders (WithHeaders Background (Some [''Authorization'' \<mapsto> [''bearer abc'']])))"
    using authorization_gate [OF hl, of barista "(Some samInput, None)" "Some samHistoryInput" "()"] nl
    by blast
  have hb: "GetHeaders (WithHeaders Background bearerHeader) = Some [''Authorization'' \<mapsto> [''Bearer abc'']]"
    by (simp add: GetHeaders_def WithHeaders_def bearerHeader_def)
  have pb: "\<exists>token. Header_Get (Some [''Authorization'' \<mapsto> [''Bearer abc'']]) ''Authorization'' = ''Bearer '' @ token"
    by (simp add: Header_Get_Authorization)
  have bearer: "\<not> invalidAuthorization (GetHeaders (WithHeaders Background bearerHeader))"
    using authorization_gate [OF hb, of barista "(Some samInput, None)" "Some samHistoryInput" "()"] pb
    by blast
  from h basic lower bearer show ?thesis by blast
qed

text \<open>
  C2. When the context carries no header collection (\<^verbatim>\<open>GetHeaders\<close> yields nil), the
  check passes: a leaf flow does not return the error \<^verbatim>\<open>invalid authorization header\<close>,
  it executes its prompt, and its result is the result of that execution. The composite
  flow, on such a context, does not answer with its rejection either: it reaches the
  execution of the first prompt, and the record it returns is the one built from the
  results of the two prompt executions.
\<close>

theorem absent_headers_pass:
  assumes "GetHeaders ctx = None"
  shows "fst (simpleGreetingFlow E ctx (input, cb)) \<noteq> Inl (Errorf ''invalid authorization header'')
       \<and> fst (simpleGreetingFlow E ctx (input, cb))
           = map_sum External id (executeSimpleGreeting E ctx input cb)
       \<and> ExecuteSimpleGreeting input (cb \<noteq> None) \<in> set (snd (simpleGreetingFlow E ctx (input, cb)))
       \<and> fst (greetingWithHistoryFlow E ctx hinput) \<noteq> Inl (Errorf ''invalid authorization header'')
       \<and> fst (greetingWithHistoryFlow E ctx hinput)
           = map_sum External id (executeGreetingWithHistory E ctx hinput)
       \<and> ExecuteGreetingWithHistory hinput \<in> set (snd (greetingWithHistoryFlow E ctx hinput))
       \<and> ExecuteSimpleGreeting (Some samInput) False \<in> set (snd (coffeeFlow E ctx u))
       \<and> fst (coffeeFlow E ctx u) =
           Inr (case executeSimpleGreeting E ctx (Some samInput) None of
                  Inl msg \<Rightarrow> \<lparr>Pass = False, Replies = None, Error = msg\<rparr>
                | Inr test1 \<Rightarrow>
                    (case executeGreetingWithHistory E ctx (Some samHistoryInput) of
                       Inl msg \<Rightarrow> \<lparr>Pass = False, Replies = None, Error = msg\<rparr>
                     | Inr test2 \<Rightarrow> \<lparr>Pass = True, Replies = Some [test1, test2], Error = []\<rparr>))"
proof -
  have pass: "\<not> invalidAuthorization (GetHeaders ctx)"
    using assms by (simp add: invalidAuthorization_None)
  obtain j where simple: "simpleGreetingFlow E ctx (input, cb) =
     (map_sum External id (executeSimpleGreeting E ctx input cb),
      logHeaders ''Received HTTP headers in simpleGreeting'' (GetHeaders ctx)
      @ [LogInput j, ExecuteSimpleGreeting input (cb \<noteq> None)])"
    using simpleGreetingFlow_admitted [OF pass] by blast
  obtain k where history: "greetingWithHistoryFlow E ctx hinput =
     (map_sum External id (executeGreetingWithHistory E ctx hinput),
      logHeaders ''Received HTTP headers in greetingWithHistory'' (GetHeaders ctx)
      @ [LogInput k, ExecuteGreetingWithHistory hinput])"
    using greetingWithHistoryFlow_admitted [OF pass] by blast
  obtain j' where sam: "simpleGreetingFlow E ctx (Some samInput, None) =
     (map_sum External id (executeSimpleGreeting E ctx (Some samInput) None),
      logHeaders ''Received HTTP headers in simpleGreeting'' (GetHeaders ctx)
      @ [LogInput j', ExecuteSimpleGreeting (Some samInput) (None \<noteq> (None :: stream_cb option))])"
    using simpleGreetingFlow_admitted [OF pass] by blast
  obtain k' where samHistory: "greetingWithHistoryFlow E ctx (Some samHistoryInput) =
     (map_sum External id (executeGreetingWithHistory E ctx (Some samHistoryInput)),
      logHeaders ''Received HTTP headers in greetingWithHistory'' (GetHeaders ctx)
      @ [LogInput k', ExecuteGreetingWithHistory (Some samHistoryInput)])"
    using greetingWithHistoryFlow_admitted [OF pass] by blast
  have s1: "fst (simpleGreetingFlow E ctx (input, cb)) \<noteq> Inl (Errorf ''invalid authorization header'')"
    by (cases "executeSimpleGreeting E ctx input cb") (simp_all add: simple)
  have s2: "ExecuteSimpleGreeting input (cb \<noteq> None) \<in> set (snd (simpleGreetingFlow E ctx (input, cb)))"
    by (simp add: simple)
  have h1: "fst (greetingWithHistoryFlow E ctx hinput) \<noteq> Inl (Errorf ''invalid authorization header'')"
    by (cases "executeGreetingWithHistory E ctx hinput") (simp_all add: history)
  have h2: "ExecuteGreetingWithHistory hinput \<in> set (snd (greetingWithHistoryFlow E ctx hinput))"
    by (simp add: history)
  have c: "ExecuteSimpleGreeting (Some samInput) False \<in> set (snd (coffeeFlow E ctx u))"
    by (simp add: coffeeFlow_admitted [OF pass] sam split: sum.splits)
  have r: "fst (coffeeFlow E ctx u) =
           Inr (case executeSimpleGreeting E ctx (Some samInput) None of
                  Inl msg \<Rightarrow> \<lparr>Pass = False, Replies = None, Error = msg\<rparr>
                | Inr test1 \<Rightarrow>
                    (case executeGreetingWithHistory E ctx (Some samHistoryInput) of
                       Inl msg \<Rightarrow> \<lparr>Pass = False, Replies = None, Error = msg\<rparr>
                     | Inr test2 \<Rightarrow> \<lparr>Pass = True, Replies = Some [test1, test2], Error = []\<rparr>))"
    by (cases "executeSimpleGreeting E ctx (Some samInput) None";
        cases "executeGreetingWithHistory E ctx (Some samHistoryInput)")
       (simp_all add: coffeeFlow_admitted [OF pass] sam samHistory)
  from s1 s2 h1 h2 c r show ?thesis by (simp add: simple history)
qed

theorem absent_headers_pass_witness:
  "GetHeaders Background = None
   \<and> simpleGreetingFlow barista Background (Some samInput, None)
       = (Inr ''Hi Sam, try a latte.'',
          [LogInput (JObject [(''customerName'', JString ''Sam'')]),
           ExecuteSimpleGreeting (Some samInput) False])
   \<and> ExecuteGreetingWithHistory (Some samHistoryInput)
       \<in> set (snd (greetingWithHistoryFlow barista Background (Some samHistoryInput)))
   \<and> ExecuteSimpleGreeting (Some samInput) False \<in> set (snd (coffeeFlow barista Background ()))
   \<and> fst (coffeeFlow barista Background ())
       = Inr \<lparr>Pass = True,
              Replies = Some [''Hi Sam, try a latte.'', ''Welcome back Sam, a mocha today?''],
              Error = []\<rparr>"
proof -
  have h: "GetHeaders Background = None"
    by (simp add: GetHeaders_def)
  have run: "simpleGreetingFlow barista Background (Some samInput, None)
       = (Inr ''Hi Sam, try a latte.'',
          [LogInput (JObject [(''customerName'', JString ''Sam'')]),
           ExecuteSimpleGreeting (Some samInput) False])"
    by (simp add: simpleGreetingFlow_def h invalidAuthorization_def logHeaders_def
        json_Marshal_simpleGreetingInput_def barista_def samInput_def)
  have e1: "executeSimpleGreeting barista Background (Some samInput) None = Inr ''Hi Sam, try a latte.''"
    by (simp add: barista_def)
  have e2: "executeGreetingWithHistory barista Background (Some samHistoryInput)
              = Inr ''Welcome back Sam, a mocha today?''"
    by (simp add: barista_def)
  from absent_headers_pass [OF h, of barista "Some samInput" None "Some samHistoryInput" "()"] h run
  show ?thesis by (simp add: e1 e2)
qed

text \<open>
  C10. When the context carries a header collection that is a map with no
  \<^verbatim>\<open>Authorization\<close> entry, with an empty list of values or with an empty first value,
  the looked-up value is the empty string and every flow rejects: the leaf flows return the
  error \<^verbatim>\<open>invalid authorization header\<close> and the composite flow its rejection record. The
  nil header collection, in contrast, is not rejected.
\<close>

theorem missing_authorization_rejected:
  assumes "GetHeaders ctx = Some m"
    and "m ''Authorization'' = None \<or> m ''Authorization'' = Some []
         \<or> (\<exists>vs. m ''Authorization'' = Some ([] # vs))"
  shows "Header_Get (GetHeaders ctx) ''Authorization'' = []
       \<and> fst (simpleGreetingFlow E ctx arg) = Inl (Errorf ''invalid authorization header'')
       \<and> fst (greetingWithHistoryFlow E ctx hinput) = Inl (Errorf ''invalid authorization header'')
       \<and> fst (coffeeFlow E ctx u)
           = Inr \<lparr>Pass = False, Replies = None, Error = ''invalid authorization header''\<rparr>
       \<and> \<not> invalidAuthorization None"
proof -
  have empty: "Header_Get (GetHeaders ctx) ''Authorization'' = []"
    using assms by (auto simp: Header_Get_Authorization)
  then have rej: "invalidAuthorization (GetHeaders ctx)"
    using assms(1) by (simp add: invalidAuthorization_def HasPrefix_def)
  show ?thesis
    using empty
    by (simp add: simpleGreetingFlow_rejected [OF rej] greetingWithHistoryFlow_rejected [OF rej]
        coffeeFlow_rejected [OF rej] invalidAuthorization_None)
qed

theorem missing_authorization_rejected_witness:
  "GetHeaders (WithHeaders Background (Some Map.empty)) = Some Map.empty
   \<and> fst (simpleGreetingFlow barista (WithHeaders Background (Some Map.empty)) (Some samInput, None))
       = Inl (Errorf ''invalid authorization header'')
   \<and> fst (coffeeFlow barista (WithHeaders Background (Some Map.empty)) ())
       = Inr \<lparr>Pass = False, Replies = None, Error = ''invalid authorization header''\<rparr>
   \<and> fst (coffeeFlow barista (WithHeaders Background (Some [''Authorization'' \<mapsto> [[]]])) ())
       = Inr \<lparr>Pass = False, Replies = None, Error = ''invalid authorization header''\<rparr>"
proof -
  have h: "GetHeaders (WithHeaders Background (Some Map.empty)) = Some Map.empty"
    by (simp add: GetHeaders_def WithHeaders_def)
  have h': "GetHeaders (WithHeaders Background (Some [''Authorization'' \<mapsto> [[]]]))
              = Some [''Authorization'' \<mapsto> [[]]]"
    by (simp add: GetHeaders_def WithHeaders_def)
  from missing_authorization_rejected [OF h, of barista "(Some samInput, None)" "Some samHistoryInput" "()"]
       missing_authorization_rejected [OF h', of barista "(Some samInput, None)" "Some samHistoryInput" "()"]
       h
  show ?thesis by simp
qed

section \<open>The composite flow\<close>



text \<open>The first leaf flow neither invokes the second flow nor executes its prompt.\<close>

lemma simpleGreetingFlow_events:
  "set (snd (simpleGreetingFlow E ctx arg)) \<inter> {Run ''greetingWithHistory'', ExecuteGreetingWithHistory hinput} = {}"
proof (cases "invalidAuthorization (GetHeaders ctx)")
  case True
  then show ?thesis by (simp add: simpleGreetingFlow_rejected logHeaders_def)
next
  case False
  obtain input cb where arg: "arg = (input, cb)" by (cases arg)
  from simpleGreetingFlow_admitted [OF False, of E input cb] show ?thesis
    by (auto simp: arg logHeaders_def)
qed

text \<open>
  C6. The composite flow runs the flow \<^verbatim>\<open>simpleGreeting\<close> and then the flow
  \<^verbatim>\<open>greetingWithHistory\<close>, each on the context it was given and on a constant input. If
  the first fails, the result is \<^verbatim>\<open>Pass\<close> false with the message of that failure, and the
  second flow is neither invoked nor its prompt executed; if the second fails, the result
  is \<^verbatim>\<open>Pass\<close> false with the message of that failure; otherwise the result is
  \<^verbatim>\<open>Pass\<close> true with the two texts, the first flow's first. The events of the composite
  flow are its own, then those of the first flow, then those of the second. (When the
  composite flow's own check rejects, no leaf flow is invoked, and the record returned is
  the one that the first flow's failure would give.)
\<close>

theorem coffeeFlow_sequence:
  "fst (coffeeFlow E ctx u) =
     Inr (case fst (simpleGreetingFlow E ctx (Some samInput, None)) of
            Inl err \<Rightarrow> \<lparr>Pass = False, Replies = None, Error = err_Error err\<rparr>
          | Inr test1 \<Rightarrow>
              (case fst (greetingWithHistoryFlow E ctx (Some samHistoryInput)) of
                 Inl err \<Rightarrow> \<lparr>Pass = False, Replies = None, Error = err_Error err\<rparr>
               | Inr test2 \<Rightarrow> \<lparr>Pass = True, Replies = Some [test1, test2], Error = []\<rparr>))
   \<and> snd (coffeeFlow E ctx u) =
       logHeaders ''Received HTTP headers in testAllCoffeeFlows'' (GetHeaders ctx)
       @ (if invalidAuthorization (GetHeaders ctx) then []
          else PrintlnHeaders (GetHeaders ctx) # Run ''simpleGreeting''
               # snd (simpleGreetingFlow E ctx (Some samInput, None))
               @ (case fst (simpleGreetingFlow E ctx (Some samInput, None)) of
                    Inl err \<Rightarrow> []
                  | Inr test1 \<Rightarrow>
                      Run ''greetingWithHistory''
                      # snd (greetingWithHistoryFlow E ctx (Some samHistoryInput))))
   \<and> ((\<exists>err. fst (simpleGreetingFlow E ctx (Some samInput, None)) = Inl err) \<longrightarrow>
        Run ''greetingWithHistory'' \<notin> set (snd (coffeeFlow E ctx u))
        \<and> ExecuteGreetingWithHistory (Some samHistoryInput) \<notin> set (snd (coffeeFlow E ctx u)))"
proof -
  let ?S = "simpleGreetingFlow E ctx (Some samInput, None)"
  let ?H = "greetingWithHistoryFlow E ctx (Some samHistoryInput)"
  have res: "fst (coffeeFlow E ctx u) =
     Inr (case fst ?S of
            Inl err \<Rightarrow> \<lparr>Pass = False, Replies = None, Error = err_Error err\<rparr>
          | Inr test1 \<Rightarrow>
              (case fst ?H of
                 Inl err \<Rightarrow> \<lparr>Pass = False, Replies = None, Error = err_Error err\<rparr>
               | Inr test2 \<Rightarrow> \<lparr>Pass = True, Replies = Some [test1, test2], Error = []\<rparr>))"
  proof (cases "invalidAuthorization (GetHeaders ctx)")
    case True
    then show ?thesis
      by (simp add: coffeeFlow_rejected simpleGreetingFlow_rejected)
  next
    case False
    show ?thesis
      by (simp add: coffeeFlow_admitted [OF False] split: sum.splits)
  qed
  have evs: "snd (coffeeFlow E ctx u) =
       logHeaders ''Received HTTP headers in testAllCoffeeFlows'' (GetHeaders ctx)
       @ (if invalidAuthorization (GetHeaders ctx) then []
          else PrintlnHeaders (GetHeaders ctx) # Run ''simpleGreeting'' # snd ?S
               @ (case fst ?S of
                    Inl err \<Rightarrow> []
                  | Inr test1 \<Rightarrow> Run ''greetingWithHistory'' # snd ?H))"
  proof (cases "invalidAuthorization (GetHeaders ctx)")
    case True
    then show ?thesis by (simp add: coffeeFlow_rejected)
  next
    case False
    then show ?thesis
      by (simp add: coffeeFlow_admitted [OF False] split: sum.splits)
  qed
  have skip: "Run ''greetingWithHistory'' \<notin> set (snd (coffeeFlow E ctx u))
        \<and> ExecuteGreetingWithHistory (Some samHistoryInput) \<notin> set (snd (coffeeFlow E ctx u))"
    if "fst ?S = Inl err" for err
    using that simpleGreetingFlow_events [of E ctx "(Some samInput, None)" "Some samHistoryInput"]
    unfolding evs by (auto simp: logHeaders_def)
  from res evs skip show ?thesis by blast
qed

theorem coffeeFlow_sequence_witness:
  "fst (simpleGreetingFlow muteFailure Background (Some samInput, None)) = Inl (External [])
   \<and> Run ''greetingWithHistory'' \<notin> set (snd (coffeeFlow muteFailure Background ()))
   \<and> ExecuteGreetingWithHistory (Some samHistoryInput) \<notin> set (snd (coffeeFlow muteFailure Background ()))
   \<and> fst (coffeeFlow historyDown Background ())
       = Inr \<lparr>Pass = False, Replies = None, Error = ''model unavailable''\<rparr>
   \<and> fst (coffeeFlow barista Background ())
       = Inr \<lparr>Pass = True,
              Replies = Some [''Hi Sam, try a latte.'', ''Welcome back Sam, a mocha today?''],
              Error = []\<rparr>"
proof -
  have h: "GetHeaders Background = None"
    by (simp add: GetHeaders_def)
  have first: "fst (simpleGreetingFlow muteFailure Background (Some samInput, None)) = Inl (External [])"
    by (simp add: simpleGreetingFlow_def h invalidAuthorization_def logHeaders_def
        json_Marshal_simpleGreetingInput_def muteFailure_def)
  have s: "fst (simpleGreetingFlow E Background (Some samInput, None))
             = map_sum External id (executeSimpleGreeting E Background (Some samInput) None)" for E
    by (simp add: simpleGreetingFlow_def h invalidAuthorization_def logHeaders_def
        json_Marshal_simpleGreetingInput_def Let_def split: sum.splits)
  have g: "fst (greetingWithHistoryFlow E Background (Some samHistoryInput))
             = map_sum External id (executeGreetingWithHistory E Background (Some samHistoryInput))" for E
    by (simp add: greetingWithHistoryFlow_def h invalidAuthorization_def logHeaders_def
        json_Marshal_customerTimeAndHistoryInput_def Let_def split: sum.splits)
  have s_down: "fst (simpleGreetingFlow historyDown Background (Some samInput, None))
                  = Inr ''Hi Sam, try a latte.''"
    by (simp add: s historyDown_def)
  have g_down: "fst (greetingWithHistoryFlow historyDown Background (Some samHistoryInput))
                  = Inl (External ''model unavailable'')"
    by (simp add: g historyDown_def)
  have s_up: "fst (simpleGreetingFlow barista Background (Some samInput, None))
                = Inr ''Hi Sam, try a latte.''"
    by (simp add: s barista_def)
  have g_up: "fst (greetingWithHistoryFlow barista Background (Some samHistoryInput))
                = Inr ''Welcome back Sam, a mocha today?''"
    by (simp add: g barista_def)
  have skipped: "Run ''greetingWithHistory'' \<notin> set (snd (coffeeFlow muteFailure Background ()))
      \<and> ExecuteGreetingWithHistory (Some samHistoryInput)
            \<notin> set (snd (coffeeFlow muteFailure Background ()))"
    using coffeeFlow_sequence [of muteFailure Background "()"] first by blast
  have down: "fst (coffeeFlow historyDown Background ())
       = Inr \<lparr>Pass = False, Replies = None, Error = ''model unavailable''\<rparr>"
    using coffeeFlow_sequence [of historyDown Background "()"] by (simp add: s_down g_down)
  have up: "fst (coffeeFlow barista Background ())
       = Inr \<lparr>Pass = True,
              Replies = Some [''Hi Sam, try a latte.'', ''Welcome back Sam, a mocha today?''],
              Error = []\<rparr>"
    using coffeeFlow_sequence [of barista Background "()"] by (simp add: s_up g_up)
  from first skipped down up show ?thesis by blast
qed

section \<open>The HTTP endpoint\<close>

text \<open>
  The handler on a request that gets past the decoding of its body: either no body is
  declared, or the decoder accepts the body.
\<close>

lemma handler_accepted:
  assumes "Method r = ''POST''"
    and "ContentLength r \<le> 0 \<or> jsonDecode E (Body r) = None"
  shows "handler E r =
     (case fst (coffeeFlow E (WithHeaders (Context r) (Header r)) ()) of
        Inl err \<Rightarrow>
          (http_Error (''Flow error: '' @ err_Error err) 500,
           [PrintlnHeaders (Header r), Run ''testAllCoffeeFlows'']
           @ snd (coffeeFlow E (WithHeaders (Context r) (Header r)) ())
           @ [LogError (err_Error err) ''Flow execution failed''])
      | Inr output \<Rightarrow>
          (\<lparr>Status = 200,
            RespHeader = [(''Content-Type'', ''application/json'')],
            Payload = Json (json_Encode_testAllCoffeeFlowsOutput output)\<rparr>,
           [PrintlnHeaders (Header r), Run ''testAllCoffeeFlows'']
           @ snd (coffeeFlow E (WithHeaders (Context r) (Header r)) ())))"
proof -
  have "(if ContentLength r > 0 then jsonDecode E (Body r) else None) = None"
    using assms(2) by auto
  then show ?thesis
    using assms(1)
    by (simp add: handler_def Flow_Run_def Let_def split: prod.splits sum.splits)
qed

text \<open>The composite flow never returns an error.\<close>

lemma coffeeFlow_returns_record: "\<exists>out. fst (coffeeFlow E ctx u) = Inr out"
proof (cases "invalidAuthorization (GetHeaders ctx)")
  case True
  then show ?thesis by (simp add: coffeeFlow_rejected)
next
  case False
  then show ?thesis
    by (simp add: coffeeFlow_admitted [OF False] split: sum.splits)
qed

text \<open>The handler on a request whose declared body the decoder rejects.\<close>

lemma handler_rejected_body:
  assumes "Method r = ''POST''" and "ContentLength r > 0" and "jsonDecode E (Body r) = Some err"
  shows "handler E r =
     (http_Error ''Invalid input'' 400, [LogError err ''Failed to decode request body''])"
  using assms by (simp add: handler_def)

text \<open>
  C5. For every POST that reaches the composite flow (its body has no positive declared
  length, or the decoder accepts it) and whose header collection is a map whose
  \<^verbatim>\<open>Authorization\<close> entry does not begin with \<^verbatim>\<open>Bearer \<close>, the composite flow returns
  the record with \<^verbatim>\<open>Pass\<close> false and \<^verbatim>\<open>Error\<close> \<^verbatim>\<open>invalid authorization header\<close>
  and no error, and the handler answers with status 200 and the JSON encoding of that
  record, not with status 500.
\<close>

theorem unauthorized_post:
  assumes "Method r = ''POST''"
    and "ContentLength r \<le> 0 \<or> jsonDecode E (Body r) = None"
    and "Header r = Some m"
    and "\<not> (\<exists>token. Header_Get (Some m) ''Authorization'' = ''Bearer '' @ token)"
  shows "fst (coffeeFlow E (WithHeaders (Context r) (Header r)) ())
           = Inr \<lparr>Pass = False, Replies = None, Error = ''invalid authorization header''\<rparr>
       \<and> Status (fst (handler E r)) = 200
       \<and> Payload (fst (handler E r))
           = Json (JObject [(''pass'', JBool False),
                            (''error'', JString ''invalid authorization header'')])"
proof -
  let ?ctx = "WithHeaders (Context r) (Header r)"
  have "GetHeaders ?ctx = Some m"
    using assms(3) by (simp add: GetHeaders_def WithHeaders_def)
  with assms(4) have rej: "invalidAuthorization (GetHeaders ?ctx)"
    by (simp add: invalidAuthorization_Some)
  have flow: "fst (coffeeFlow E ?ctx ())
           = Inr \<lparr>Pass = False, Replies = None, Error = ''invalid authorization header''\<rparr>"
    by (simp add: coffeeFlow_rejected [OF rej])
  show ?thesis
    by (simp add: handler_accepted [OF assms(1,2)] flow json_Encode_testAllCoffeeFlowsOutput_def)
qed

theorem unauthorized_post_witness:
  "Method \<lparr>Method = ''POST'', ContentLength = 2, Body = ''{}'',
           Header = basicHeader, Context = Background\<rparr> = ''POST''
   \<and> jsonDecode barista ''{}'' = None
   \<and> \<not> (\<exists>token. Header_Get basicHeader ''Authorization'' = ''Bearer '' @ token)
   \<and> Status (fst (handler barista \<lparr>Method = ''POST'', ContentLength = 2, Body = ''{}'',
                                    Header = basicHeader, Context = Background\<rparr>)) = 200
   \<and> Payload (fst (handler barista \<lparr>Method = ''POST'', ContentLength = 2, Body = ''{}'',
                                     Header = basicHeader, Context = Background\<rparr>))
       = Json (JObject [(''pass'', JBool False),
                        (''error'', JString ''invalid authorization header'')])"
proof -
  let ?r = "\<lparr>Method = ''POST'', ContentLength = 2, Body = ''{}'',
             Header = basicHeader, Context = Background\<rparr>"
  have a: "Method ?r = ''POST''" by simp
  have d: "jsonDecode barista ''{}'' = None"
    by (simp add: barista_def strictDecode_def)
  then have b: "ContentLength ?r \<le> 0 \<or> jsonDecode barista (Body ?r) = None" by simp
  have c: "Header ?r = Some [''Authorization'' \<mapsto> [''Basic xyz'']]"
    by (simp add: basicHeader_def)
  have n: "\<not> (\<exists>token. Header_Get (Some [''Authorization'' \<mapsto> [''Basic xyz'']]) ''Authorization''
                          = ''Bearer '' @ token)"
    by (simp add: Header_Get_Authorization)
  from unauthorized_post [OF a b c n] a d n show ?thesis
    by (simp add: basicHeader_def)
qed

text \<open>
  C7, as stated, fails: a POST whose body has no declared length (\<^verbatim>\<open>ContentLength\<close> is
  \<open>-1\<close>, as for chunked transfer encoding) is not decoded. With the body \<^verbatim>\<open>{invalid\<close>,
  which the decoder would reject, the composite flow is invoked and the status is 200.
\<close>

theorem malformed_body_counterexample:
  "jsonDecode barista ''{invalid'' = Some ''invalid character''
   \<and> Status (fst (handler barista \<lparr>Method = ''POST'', ContentLength = - 1, Body = ''{invalid'',
                                    Header = bearerHeader, Context = Background\<rparr>)) = 200
   \<and> Run ''testAllCoffeeFlows''
       \<in> set (snd (handler barista \<lparr>Method = ''POST'', ContentLength = - 1, Body = ''{invalid'',
                                     Header = bearerHeader, Context = Background\<rparr>))"
proof -
  let ?r = "\<lparr>Method = ''POST'', ContentLength = - 1, Body = ''{invalid'',
             Header = bearerHeader, Context = Background\<rparr>"
  have d: "jsonDecode barista ''{invalid'' = Some ''invalid character''"
    by (simp add: barista_def strictDecode_def)
  have a: "Method ?r = ''POST''" by simp
  have b: "ContentLength ?r \<le> 0 \<or> jsonDecode barista (Body ?r) = None" by simp
  obtain out where "fst (coffeeFlow barista (WithHeaders (Context ?r) (Header ?r)) ()) = Inr out"
    using coffeeFlow_returns_record by blast
  then have "Status (fst (handler barista ?r)) = 200
           \<and> Run ''testAllCoffeeFlows'' \<in> set (snd (handler barista ?r))"
    by (simp add: handler_accepted [OF a b])
  with d show ?thesis by simp
qed

text \<open>
  C7, amended. For every POST whose declared content length is positive and whose body
  the JSON decoder rejects, the handler answers with status 400, and the composite flow is
  not invoked: the only event is the error log line. A POST whose declared content length
  is not positive is not decoded: its body plays no role, the composite flow is invoked on
  the empty input record, and the status is 200.
\<close>

theorem malformed_body:
  "(Method r = ''POST'' \<and> 0 < ContentLength r \<and> jsonDecode E (Body r) = Some err \<longrightarrow>
      Status (fst (handler E r)) = 400
      \<and> snd (handler E r) = [LogError err ''Failed to decode request body'']
      \<and> Run ''testAllCoffeeFlows'' \<notin> set (snd (handler E r)))
   \<and> (Method r = ''POST'' \<and> ContentLength r \<le> 0 \<longrightarrow>
      Status (fst (handler E r)) = 200
      \<and> Run ''testAllCoffeeFlows'' \<in> set (snd (handler E r))
      \<and> handler E r = handler E (r\<lparr>Body := []\<rparr>))"
proof -
  have rejected: "Status (fst (handler E r)) = 400
      \<and> snd (handler E r) = [LogError err ''Failed to decode request body'']
      \<and> Run ''testAllCoffeeFlows'' \<notin> set (snd (handler E r))"
    if "Method r = ''POST''" "0 < ContentLength r" "jsonDecode E (Body r) = Some err"
    using that by (simp add: handler_rejected_body http_Error_def)
  have empty: "Status (fst (handler E r)) = 200
      \<and> Run ''testAllCoffeeFlows'' \<in> set (snd (handler E r))
      \<and> handler E r = handler E (r\<lparr>Body := []\<rparr>)"
    if m: "Method r = ''POST''" and l: "ContentLength r \<le> 0"
  proof -
    obtain out where out: "fst (coffeeFlow E (WithHeaders (Context r) (Header r)) ()) = Inr out"
      using coffeeFlow_returns_record by blast
    have b: "ContentLength r \<le> 0 \<or> jsonDecode E (Body r) = None"
      using l by simp
    have m': "Method (r\<lparr>Body := []\<rparr>) = ''POST''"
      using m by simp
    have b': "ContentLength (r\<lparr>Body := []\<rparr>) \<le> 0 \<or> jsonDecode E (Body (r\<lparr>Body := []\<rparr>)) = None"
      using l by simp
    show ?thesis
      by (simp add: handler_accepted [OF m b] handler_accepted [OF m' b'] out)
  qed
  from rejected empty show ?thesis by blast
qed

theorem malformed_body_witness:
  "Status (fst (handler barista \<lparr>Method = ''POST'', ContentLength = 8, Body = ''{invalid'',
                                  Header = bearerHeader, Context = Background\<rparr>)) = 400
   \<and> Run ''testAllCoffeeFlows''
       \<notin> set (snd (handler barista \<lparr>Method = ''POST'', ContentLength = 8, Body = ''{invalid'',
                                     Header = bearerHeader, Context = Background\<rparr>))
   \<and> Status (fst (handler barista \<lparr>Method = ''POST'', ContentLength = 0, Body = [],
                                  Header = bearerHeader, Context = Background\<rparr>)) = 200
   \<and> Run ''testAllCoffeeFlows''
       \<in> set (snd (handler barista \<lparr>Method = ''POST'', ContentLength = 0, Body = [],
                                     Header = bearerHeader, Context = Background\<rparr>))"
proof -
  have d: "jsonDecode barista ''{invalid'' = Some ''invalid character''"
    by (simp add: barista_def strictDecode_def)
  from malformed_body [of "\<lparr>Method = ''POST'', ContentLength = 8, Body = ''{invalid'',
                             Header = bearerHeader, Context = Background\<rparr>" barista "''invalid character''"]
       malformed_body [of "\<lparr>Method = ''POST'', ContentLength = 0, Body = [],
                             Header = bearerHeader, Context = Background\<rparr>" barista "''invalid character''"]
       d
  show ?thesis by simp
qed

section \<open>The request body does not reach the flows\<close>

text \<open>Every prompt execution of a leaf flow run on the constant input carries that input.\<close>

lemma simpleGreetingFlow_constantInputs:
  "list_all constantInputs (snd (simpleGreetingFlow E ctx (Some samInput, None)))"
proof (cases "invalidAuthorization (GetHeaders ctx)")
  case True
  then show ?thesis
    by (simp add: simpleGreetingFlow_rejected logHeaders_def constantInputs_def)
next
  case False
  from simpleGreetingFlow_admitted [OF False, of E "Some samInput" None] show ?thesis
    by (auto simp: logHeaders_def constantInputs_def)
qed

lemma greetingWithHistoryFlow_constantInputs:
  "list_all constantInputs (snd (greetingWithHistoryFlow E ctx (Some samHistoryInput)))"
proof (cases "invalidAuthorization (GetHeaders ctx)")
  case True
  then show ?thesis
    by (simp add: greetingWithHistoryFlow_rejected logHeaders_def constantInputs_def)
next
  case False
  from greetingWithHistoryFlow_admitted [OF False, of E "Some samHistoryInput"] show ?thesis
    by (auto simp: logHeaders_def constantInputs_def)
qed

lemma coffeeFlow_constantInputs: "list_all constantInputs (snd (coffeeFlow E ctx u))"
proof (cases "invalidAuthorization (GetHeaders ctx)")
  case True
  then show ?thesis
    by (simp add: coffeeFlow_rejected logHeaders_def constantInputs_def)
next
  case False
  have own: "list_all constantInputs
               (logHeaders ''Received HTTP headers in testAllCoffeeFlows'' (GetHeaders ctx))"
    by (simp add: logHeaders_def constantInputs_def)
  have marks: "constantInputs (PrintlnHeaders (GetHeaders ctx))" "constantInputs (Run name)" for name
    by (simp_all add: constantInputs_def)
  show ?thesis
    using own marks simpleGreetingFlow_constantInputs [of E ctx]
      greetingWithHistoryFlow_constantInputs [of E ctx]
    by (simp add: coffeeFlow_admitted [OF False] split: sum.splits)
qed

text \<open>
  C9. The composite flow ignores its input: its result and events are the same for any two
  inputs (the input is the empty struct), and every prompt execution among its events
  carries the constant input (customer \<^verbatim>\<open>Sam\<close>, time \<^verbatim>\<open>09:45am\<close>, previous order
  \<^verbatim>\<open>Caramel Macchiato\<close>). At the endpoint, two requests with the same method, headers and
  context that both get past the decoding of their bodies receive the same response and
  produce the same events, under the same collaborators, whatever their bodies are.
\<close>

theorem request_body_noninterference:
  "coffeeFlow E ctx u = coffeeFlow E ctx u'
   \<and> list_all constantInputs (snd (coffeeFlow E ctx u))
   \<and> (Method r = Method r' \<and> Header r = Header r' \<and> Context r = Context r'
        \<and> (ContentLength r \<le> 0 \<or> jsonDecode E (Body r) = None)
        \<and> (ContentLength r' \<le> 0 \<or> jsonDecode E (Body r') = None)
      \<longrightarrow> handler E r = handler E r')"
proof -
  have same: "handler E r = handler E r'"
    if "Method r = Method r'" "Header r = Header r'" "Context r = Context r'"
      and a: "ContentLength r \<le> 0 \<or> jsonDecode E (Body r) = None"
      and a': "ContentLength r' \<le> 0 \<or> jsonDecode E (Body r') = None"
  proof (cases "Method r = ''POST''")
    case True
    with that have m': "Method r' = ''POST''" by simp
    show ?thesis
      unfolding handler_accepted [OF True a] handler_accepted [OF m' a'] that(2) that(3)
      by (rule refl)
  next
    case False
    with that show ?thesis by (simp add: handler_def)
  qed
  have unit: "coffeeFlow E ctx u = coffeeFlow E ctx u'" by simp
  from unit coffeeFlow_constantInputs same show ?thesis by blast
qed

theorem request_body_noninterference_witness:
  "jsonDecode barista ''{}'' = None
   \<and> handler barista \<lparr>Method = ''POST'', ContentLength = 2, Body = ''{}'',
                       Header = bearerHeader, Context = Background\<rparr>
     = handler barista \<lparr>Method = ''POST'', ContentLength = 0, Body = [],
                         Header = bearerHeader, Context = Background\<rparr>
   \<and> list_all constantInputs (snd (coffeeFlow barista (WithHeaders Background bearerHeader) ()))
   \<and> ExecuteSimpleGreeting (Some samInput) False
       \<in> set (snd (coffeeFlow barista (WithHeaders Background bearerHeader) ()))"
proof -
  have d: "jsonDecode barista ''{}'' = None"
    by (simp add: barista_def strictDecode_def)
  have h: "GetHeaders (WithHeaders Background bearerHeader) = Some [''Authorization'' \<mapsto> [''Bearer abc'']]"
    by (simp add: GetHeaders_def WithHeaders_def bearerHeader_def)
  have p: "\<not> invalidAuthorization (GetHeaders (WithHeaders Background bearerHeader))"
    by (simp add: h invalidAuthorization_def Header_Get_Authorization HasPrefix_def)
  obtain j where "simpleGreetingFlow barista (WithHeaders Background bearerHeader) (Some samInput, None) =
     (map_sum External id (executeSimpleGreeting barista (WithHeaders Background bearerHeader) (Some samInput) None),
      logHeaders ''Received HTTP headers in simpleGreeting'' (GetHeaders (WithHeaders Background bearerHeader))
      @ [LogInput j, ExecuteSimpleGreeting (Some samInput) (None \<noteq> (None :: stream_cb option))])"
    using simpleGreetingFlow_admitted [OF p] by blast
  then have e: "ExecuteSimpleGreeting (Some samInput) False
       \<in> set (snd (coffeeFlow barista (WithHeaders Background bearerHeader) ()))"
    by (simp add: coffeeFlow_admitted [OF p] split: sum.splits)
  from request_body_noninterference
         [of barista "WithHeaders Background bearerHeader" "()" "()"
             "\<lparr>Method = ''POST'', ContentLength = 2, Body = ''{}'',
               Header = bearerHeader, Context = Background\<rparr>"
             "\<lparr>Method = ''POST'', ContentLength = 0, Body = [],
               Header = bearerHeader, Context = Background\<rparr>"] d e
  show ?thesis by simp
qed

end
